theory Spec2Isabelle
  imports Main
begin

section \<open>Go basics\<close>

text \<open>
  Go's \<open>int\<close> is modelled as the unbounded \<open>int\<close> of HOL throughout: the counters and
  configuration values of this program are small, and no property below concerns overflow.
  Integer division truncates towards zero in Go and panics on a zero divisor; both are
  written out. An \<open>error\<close> value is a string (the text of \<open>err.Error()\<close>); a run-time
  panic is kept apart from a returned error.
\<close>

datatype go_error = Panic string | Err string

definition go_quot :: "int \<Rightarrow> int \<Rightarrow> int" where
  "go_quot a b = (if (a < 0) = (b < 0) then \<bar>a\<bar> div \<bar>b\<bar> else - (\<bar>a\<bar> div \<bar>b\<bar>))"

definition go_div :: "int \<Rightarrow> int \<Rightarrow> go_error + int" where
  "go_div a b = (if b = 0 then Inl (Panic ''integer divide by zero'') else Inr (go_quot a b))"

definition go_mod :: "int \<Rightarrow> int \<Rightarrow> go_error + int" where
  "go_mod a b = (if b = 0 then Inl (Panic ''integer divide by zero'')
                 else Inr (a - b * go_quot a b))"

text \<open>
  A slice expression \<open>xs[lo:hi]\<close>: it panics unless \<open>0 \<le> lo \<le> hi \<le> cap(xs)\<close>. A list
  is taken to have no spare capacity, so the bound is its length.
\<close>

definition go_slice :: "'a list \<Rightarrow> int \<Rightarrow> int \<Rightarrow> go_error + 'a list" where
  "go_slice xs lo hi =
     (if 0 \<le> lo \<and> lo \<le> hi \<and> hi \<le> int (length xs)
      then Inr (take (nat (hi - lo)) (drop (nat lo) xs))
      else Inl (Panic ''slice bounds out of range''))"

subsection \<open>Decimal conversion\<close>


definition is_digit :: "char \<Rightarrow> bool" where
  "is_digit c \<longleftrightarrow> 48 \<le> (of_char c :: nat) \<and> (of_char c :: nat) \<le> 57"

definition digit_val :: "char \<Rightarrow> nat" where
  "digit_val c = of_char c - 48"




definition digits_val :: "string \<Rightarrow> nat" where
  "digits_val ds = foldl (\<lambda>acc c. 10 * acc + digit_val c) 0 ds"

definition Atoi :: "string \<Rightarrow> int option" where
  "Atoi s =
     (let neg = (s \<noteq> [] \<and> hd s = CHR ''-'');
          ds = (if s \<noteq> [] \<and> (hd s = CHR ''-'' \<or> hd s = CHR ''+'') then tl s else s)
      in if ds = [] \<or> \<not> list_all is_digit ds then None
         else let v = (if neg then - int (digits_val ds) else int (digits_val ds))
              in if - (2 ^ 63) \<le> v \<and> v < 2 ^ 63 then Some v else None)"

text \<open>\<open>strings.Split(s, sep)\<close> for a one-character separator.\<close>

fun Split :: "string \<Rightarrow> char \<Rightarrow> string list" where
  "Split [] sep = [[]]"
| "Split (x # xs) sep =
     (if x = sep then [] # Split xs sep
      else (case Split xs sep of [] \<Rightarrow> [[x]] | p # ps \<Rightarrow> (x # p) # ps))"

section \<open>Configuration (Config, ExecutionConfig, TestConfig)\<close>

text \<open>
  The server section of the configuration only feeds the HTTP client, which is a
  parameter of the model; it is left out.
\<close>

record TestConfig =
  UsernamePrefix :: string
  UserPassword :: string
  RoleName :: string
  TenantPrefix :: string

record ExecutionConfig =
  NoOfThreads :: int
  NoOfUsers :: int
  LoopCount :: int
  RampUpPeriod :: int
  ScimIdCsvPath :: string
  FailedUsersCsvPath :: string
  NoOfTenants :: int
  UserStartNumber :: int
  TenantStartNumber :: int

record Config =
  Test :: TestConfig
  Execution :: ExecutionConfig

definition DefaultConfig :: Config where
  "DefaultConfig =
     \<lparr>Test = \<lparr>UsernamePrefix = ''isTestUser_'', UserPassword = ''Password_1'',
               RoleName = ''isTestUserRole'', TenantPrefix = ''tenant''\<rparr>,
      Execution = \<lparr>NoOfThreads = 1, NoOfUsers = 1000, LoopCount = 1000, RampUpPeriod = 10,
                    ScimIdCsvPath = ''scimIDs.csv'', FailedUsersCsvPath = ''failedUsers.csv'',
                    NoOfTenants = 5, UserStartNumber = 1, TenantStartNumber = 1\<rparr>\<rparr>"

text \<open>The settings the command line can override: \<open>-concurrency\<close>, \<open>-userCount\<close>,
  \<open>-noOfTenants\<close>, \<open>-rampUpPeriod\<close>.\<close>

definition with_flags :: "int \<Rightarrow> int \<Rightarrow> int \<Rightarrow> int \<Rightarrow> Config \<Rightarrow> Config" where
  "with_flags concurrency userCount noOfTenants rampUpPeriod c =
     c\<lparr>Execution := (Execution c)\<lparr>NoOfThreads := concurrency, NoOfUsers := userCount,
                                     NoOfTenants := noOfTenants,
                                     RampUpPeriod := rampUpPeriod\<rparr>\<rparr>"


section \<open>Work items (WorkerTask, RetryWorkerTask, FailedUser, TestResult)\<close>

text \<open>
  The type \<open>'c\<close> stands for an HTTP client together with what it sees of the remote
  server; every task owns one (\<open>NewHTTPClient\<close>).
\<close>

record 'c WorkerTask =
  UserStart :: int
  UserEnd :: int
  ThreadID :: int
  Client :: 'c

record FailedUser =
  TenantID :: int
  Username :: string
  Error :: string
  Timestamp :: string

record 'c RetryWorkerTask =
  ThreadID :: int
  UserStart :: int
  UserEnd :: int
  FailedUsers :: "FailedUser list"
  Client :: 'c

text \<open>The arguments of one \<open>go te.roleCreationWorker(...)\<close> call.\<close>

record 'c RoleWorkerArgs =
  roleThreadID :: int
  roleTenantStart :: int
  roleTenantEnd :: int
  roleClient :: 'c

record SCIMUserResponse =
  ID :: string
  UserName :: string

record TestResult =
  TenantIndex :: int
  UserIndex :: int
  ScimID :: string
  Success :: bool
  Error :: "string option"
  ThreadID :: int

section \<open>Partitioning loops\<close>

text \<open>
  The three phases each carry their own copy of the partitioning loop. Each is modelled
  by a recursive function on the loop counter \<open>threadID\<close>; the list it returns holds,
  in order, the tasks appended (user creation, retry) or the workers started (role
  creation).
\<close>

text \<open>ExecuteRoleCreation: the loop over \<open>threadID\<close>, guarded by \<open>threadTenants > 0\<close>.\<close>

function roleCreationLoop ::
  "'c \<Rightarrow> int \<Rightarrow> int \<Rightarrow> int \<Rightarrow> int \<Rightarrow> int \<Rightarrow> 'c RoleWorkerArgs list" where
  "roleCreationLoop newClient threads tenantsPerThread remainingTenants threadID tenantStart =
     (if threadID < threads then
        (let threadTenants = (if threadID < remainingTenants then tenantsPerThread + 1
                              else tenantsPerThread);
             tenantEnd = tenantStart + threadTenants - 1
         in (if threadTenants > 0
             then [\<lparr>roleThreadID = threadID, roleTenantStart = tenantStart,
                    roleTenantEnd = tenantEnd, roleClient = newClient\<rparr>]
             else [])
            @ roleCreationLoop newClient threads tenantsPerThread remainingTenants
                (threadID + 1) (tenantEnd + 1))
      else [])"
  by pat_completeness auto
termination
  by (relation "measure (\<lambda>(c, threads, per, rem, threadID, start). nat (threads - threadID))") auto

declare roleCreationLoop.simps [simp del]

definition ExecuteRoleCreation :: "'c \<Rightarrow> Config \<Rightarrow> go_error + 'c RoleWorkerArgs list" where
  "ExecuteRoleCreation newClient config =
     (let totalTenants = NoOfTenants (Execution config);
          threads = NoOfThreads (Execution config)
      in case go_div totalTenants threads of Inl e \<Rightarrow> Inl e
         | Inr tenantsPerThread \<Rightarrow>
           (case go_mod totalTenants threads of Inl e \<Rightarrow> Inl e
            | Inr remainingTenants \<Rightarrow>
                Inr (roleCreationLoop newClient threads tenantsPerThread remainingTenants 0
                       (TenantStartNumber (Execution config)))))"

text \<open>
  ExecuteUserCreation, first loop: \<open>remainingUsers\<close> is counted down, and a task is
  appended for every \<open>threadID\<close>.
\<close>

function userTasksLoop ::
  "'c \<Rightarrow> int \<Rightarrow> int \<Rightarrow> int \<Rightarrow> int \<Rightarrow> int \<Rightarrow> 'c WorkerTask list" where
  "userTasksLoop newClient threads usersPerThread threadID remainingUsers userStart =
     (if threadID < threads then
        (let threadUsers = (if remainingUsers > 0 then usersPerThread + 1 else usersPerThread);
             remainingUsers' = (if remainingUsers > 0 then remainingUsers - 1 else remainingUsers);
             userEnd = userStart + threadUsers - 1
         in \<lparr>WorkerTask.UserStart = userStart, UserEnd = userEnd, ThreadID = threadID,
              Client = newClient\<rparr>
            # userTasksLoop newClient threads usersPerThread (threadID + 1) remainingUsers'
                (userEnd + 1))
      else [])"
  by pat_completeness auto
termination
  by (relation "measure (\<lambda>(c, threads, per, threadID, rem, start). nat (threads - threadID))") auto

declare userTasksLoop.simps [simp del]

definition userCreationTasks :: "'c \<Rightarrow> Config \<Rightarrow> go_error + 'c WorkerTask list" where
  "userCreationTasks newClient config =
     (case go_div (NoOfUsers (Execution config)) (NoOfThreads (Execution config)) of
        Inl e \<Rightarrow> Inl e
      | Inr usersPerThread \<Rightarrow>
        (case go_mod (NoOfUsers (Execution config)) (NoOfThreads (Execution config)) of
           Inl e \<Rightarrow> Inl e
         | Inr remainingUsers \<Rightarrow>
             Inr (userTasksLoop newClient (NoOfThreads (Execution config)) usersPerThread 0
                    remainingUsers (UserStartNumber (Execution config)))))"

text \<open>
  ExecuteRetryFailed, the loop over \<open>threadID\<close>: a task is appended, and \<open>userStart\<close>
  advanced, only when \<open>threadUsers > 0\<close>.
\<close>

function retryTasksLoop ::
  "'c \<Rightarrow> FailedUser list \<Rightarrow> int \<Rightarrow> int \<Rightarrow> int \<Rightarrow> int \<Rightarrow> int \<Rightarrow> 'c RetryWorkerTask list" where
  "retryTasksLoop newClient failedUsers threads usersPerThread remainingUsers threadID userStart =
     (if threadID < threads then
        (let threadUsers = (if threadID < remainingUsers then usersPerThread + 1
                            else usersPerThread)
         in if threadUsers > 0 then
              (let userEnd = userStart + threadUsers - 1
               in \<lparr>RetryWorkerTask.ThreadID = threadID, UserStart = userStart, UserEnd = userEnd,
                    FailedUsers = failedUsers, Client = newClient\<rparr>
                  # retryTasksLoop newClient failedUsers threads usersPerThread remainingUsers
                      (threadID + 1) (userEnd + 1))
            else retryTasksLoop newClient failedUsers threads usersPerThread remainingUsers
                   (threadID + 1) userStart)
      else [])"
  by pat_completeness auto
termination
  by (relation "measure (\<lambda>(c, fu, threads, per, rem, threadID, start). nat (threads - threadID))")
    auto

declare retryTasksLoop.simps [simp del]

definition retryTasks :: "'c \<Rightarrow> Config \<Rightarrow> FailedUser list \<Rightarrow> go_error + 'c RetryWorkerTask list" where
  "retryTasks newClient config failedUsers =
     (case go_div (int (length failedUsers)) (NoOfThreads (Execution config)) of
        Inl e \<Rightarrow> Inl e
      | Inr usersPerThread \<Rightarrow>
        (case go_mod (int (length failedUsers)) (NoOfThreads (Execution config)) of
           Inl e \<Rightarrow> Inl e
         | Inr remainingUsers \<Rightarrow>
             Inr (retryTasksLoop newClient failedUsers (NoOfThreads (Execution config))
                    usersPerThread remainingUsers 0 0)))"

subsection \<open>Ranges\<close>

text \<open>An inclusive index range \<open>(start, end)\<close>; it is empty when \<open>end < start\<close>.\<close>

type_synonym range = "int \<times> int"

definition task_range :: "'c WorkerTask \<Rightarrow> range" where
  "task_range t = (WorkerTask.UserStart t, WorkerTask.UserEnd t)"

definition retry_range :: "'c RetryWorkerTask \<Rightarrow> range" where
  "retry_range t = (RetryWorkerTask.UserStart t, RetryWorkerTask.UserEnd t)"

definition role_range :: "'c RoleWorkerArgs \<Rightarrow> range" where
  "role_range a = (roleTenantStart a, roleTenantEnd a)"


definition range_size :: "range \<Rightarrow> int" where
  "range_size r = snd r - fst r + 1"

fun contiguous_from :: "int \<Rightarrow> range list \<Rightarrow> bool" where
  "contiguous_from s [] = True"
| "contiguous_from s (r # rs) = (fst r = s \<and> contiguous_from (snd r + 1) rs)"


section \<open>Statistics (TestStats)\<close>


text \<open>
  The mutex of \<open>TestStats\<close> makes every increment atomic, so a concurrent run is a
  sequence of increments in some order.
\<close>

record TestStats =
  TotalUsers :: int
  SuccessUsers :: int
  FailedUsers :: int
  TotalRoles :: int
  SuccessRoles :: int
  FailedRoles :: int

definition NewTestStats :: TestStats where
  "NewTestStats = \<lparr>TotalUsers = 0, SuccessUsers = 0, FailedUsers = 0,
                    TotalRoles = 0, SuccessRoles = 0, FailedRoles = 0\<rparr>"

definition IncrementRole :: "bool \<Rightarrow> TestStats \<Rightarrow> TestStats" where
  "IncrementRole success ts =
     (let ts1 = ts\<lparr>TotalRoles := TotalRoles ts + 1\<rparr>
      in if success then ts1\<lparr>SuccessRoles := SuccessRoles ts1 + 1\<rparr>
         else ts1\<lparr>FailedRoles := FailedRoles ts1 + 1\<rparr>)"

definition IncrementUser :: "bool \<Rightarrow> TestStats \<Rightarrow> TestStats" where
  "IncrementUser success ts =
     (let ts1 = ts\<lparr>TotalUsers := TotalUsers ts + 1\<rparr>
      in if success then ts1\<lparr>SuccessUsers := SuccessUsers ts1 + 1\<rparr>
         else ts1\<lparr>FailedUsers := FailedUsers ts1 + 1\<rparr>)"

text \<open>One call on the stats object, and a run of calls from a given state.\<close>

datatype stats_call = CallIncrementRole bool | CallIncrementUser bool

fun observe :: "stats_call \<Rightarrow> TestStats \<Rightarrow> TestStats" where
  "observe (CallIncrementRole b) ts = IncrementRole b ts"
| "observe (CallIncrementUser b) ts = IncrementUser b ts"

definition observe_all :: "stats_call list \<Rightarrow> TestStats \<Rightarrow> TestStats" where
  "observe_all calls ts = fold observe calls ts"

definition b2i :: "bool \<Rightarrow> int" where
  "b2i b = (if b then 1 else 0)"

definition stats_balanced :: "TestStats \<Rightarrow> bool" where
  "stats_balanced ts \<longleftrightarrow>
     TotalRoles ts = SuccessRoles ts + FailedRoles ts \<and>
     TotalUsers ts = SuccessUsers ts + FailedUsers ts"

section \<open>The remote capability and worker events\<close>

text \<open>
  The HTTP exchange is outside the model. A client of type \<open>'c\<close> answers a
  \<open>CreateUserWithName(tenantIndex, username)\<close> call with an error text or a response and
  becomes a new client; \<open>Now\<close> is the formatted time a worker reads after a failure.
  What a worker does to the world is recorded as a list of events, in program order:
  the remote call it issues, the ledger row it writes, the result it sends on the channel.
  Workers run concurrently, so a run of the pool is an interleaving of the workers'
  event lists.
\<close>

record 'c env =
  CreateUserWithName :: "'c \<Rightarrow> int \<Rightarrow> string \<Rightarrow> (string + SCIMUserResponse) \<times> 'c"
  Now :: "'c \<Rightarrow> string"

datatype event =
    RemoteCreateUser int string
  | LedgerWrite int string string string
  | ResultSent TestResult


fun remote_calls :: "event list \<Rightarrow> (int \<times> string) list" where
  "remote_calls [] = []"
| "remote_calls (RemoteCreateUser t u # es) = (t, u) # remote_calls es"
| "remote_calls (e # es) = remote_calls es"

fun results_sent :: "event list \<Rightarrow> TestResult list" where
  "results_sent [] = []"
| "results_sent (ResultSent r # es) = r # results_sent es"
| "results_sent (e # es) = results_sent es"

text \<open>The (user index, tenant index) pairs of the results sent.\<close>

definition result_pairs :: "event list \<Rightarrow> (int \<times> int) list" where
  "result_pairs es = map (\<lambda>r. (UserIndex r, TenantIndex r)) (results_sent es)"


text \<open>A \<open>for\<close> loop over the indices or elements \<open>xs\<close>, threading the client.\<close>

fun for_each :: "('i \<Rightarrow> 'c \<Rightarrow> event list \<times> 'c) \<Rightarrow> 'i list \<Rightarrow> 'c \<Rightarrow> event list \<times> 'c" where
  "for_each body [] c = ([], c)"
| "for_each body (i # is) c =
     (let (ev, c1) = body i c;
          (evs, c2) = for_each body is c1
      in (ev @ evs, c2))"




text \<open>
  \<open>retryUsersWorkerScalable\<close>: the slice of the task's users, and for each of them the
  index parsed from the username (for the result only), the remote call, the ledger row
  on failure and the result.
\<close>

definition retryStep :: "'c env \<Rightarrow> int \<Rightarrow> FailedUser \<Rightarrow> 'c \<Rightarrow> event list \<times> 'c" where
  "retryStep env threadId user c =
     (let parts = Split (Username user) CHR ''_'';
          userIndex = (if length parts > 1
                       then (case Atoi (last parts) of Some idx \<Rightarrow> idx | None \<Rightarrow> - 1)
                       else - 1);
          (resp, c') = CreateUserWithName env c (TenantID user) (Username user)
      in case resp of
           Inl err \<Rightarrow>
             ([RemoteCreateUser (TenantID user) (Username user),
               LedgerWrite (TenantID user) (Username user) err (Now env c'),
               ResultSent \<lparr>TenantIndex = TenantID user, UserIndex = userIndex, ScimID = [],
                            Success = False, Error = Some err, ThreadID = threadId\<rparr>],
              c')
         | Inr userResp \<Rightarrow>
             ([RemoteCreateUser (TenantID user) (Username user),
               ResultSent \<lparr>TenantIndex = TenantID user, UserIndex = userIndex,
                            ScimID = ID userResp, Success = True, Error = None,
                            ThreadID = threadId\<rparr>],
              c'))"

definition retryUsersWorkerScalable :: "'c env \<Rightarrow> 'c RetryWorkerTask \<Rightarrow> go_error + event list" where
  "retryUsersWorkerScalable env task =
     (case go_slice (RetryWorkerTask.FailedUsers task) (RetryWorkerTask.UserStart task)
             (RetryWorkerTask.UserEnd task + 1) of
        Inl e \<Rightarrow> Inl e
      | Inr usersToRetry \<Rightarrow>
          Inr (fst (for_each (retryStep env (RetryWorkerTask.ThreadID task)) usersToRetry
                      (RetryWorkerTask.Client task))))"

section \<open>Ramp-up\<close>

text \<open>
  The launcher's loop: start a goroutine for the task, then sleep for \<open>rampUpDelay\<close> if
  it is positive. Time is the launcher's own clock in nanoseconds, counted from the
  start of the loop and advanced by the sleeps only; each started worker is recorded
  with the clock reading at its \<open>go\<close> statement.
\<close>

definition rampUpDelay :: "Config \<Rightarrow> go_error + int" where
  "rampUpDelay config =
     go_div (RampUpPeriod (Execution config) * 1000000000) (NoOfThreads (Execution config))"

fun launchLoop :: "int \<Rightarrow> int \<Rightarrow> 'a list \<Rightarrow> (int \<times> 'a) list" where
  "launchLoop delay clock [] = []"
| "launchLoop delay clock (task # tasks) =
     (clock, task) # launchLoop delay (if delay > 0 then clock + delay else clock) tasks"

text \<open>
  \<open>ExecuteUserCreation\<close>: the tasks, the result channel (\<open>make\<close> panics on a negative
  capacity), the ramp-up delay and the launches. The value returned lists the workers
  started, each with its launch time; what a worker then does is \<open>userCreationWorker\<close>,
  and the results it sends are consumed by \<open>processResults\<close>.
\<close>

definition ExecuteUserCreation :: "'c \<Rightarrow> Config \<Rightarrow> go_error + (int \<times> 'c WorkerTask) list" where
  "ExecuteUserCreation newClient config =
     (case userCreationTasks newClient config of
        Inl e \<Rightarrow> Inl e
      | Inr tasks \<Rightarrow>
          (let totalResults = NoOfUsers (Execution config) * NoOfTenants (Execution config)
           in if totalResults < 0 then Inl (Panic ''makechan: size out of range'')
              else (case rampUpDelay config of
                      Inl e \<Rightarrow> Inl e
                    | Inr delay \<Rightarrow> Inr (launchLoop delay 0 tasks))))"


section \<open>Files and CSV writers\<close>

text \<open>
  A CSV file is modelled by the list of its rows, a row by the list of its fields: the
  byte encoding done by Go's \<open>encoding/csv\<close> is outside the model, and a file is taken to
  read back as the rows written to it. A file is identified with its path. A file has
  size 0 exactly when it has no rows. \<open>unwritable\<close> marks the paths on which removing,
  creating and opening for writing fail; writing to an open file does not fail.
  A \<open>csv.Writer\<close> buffers the rows written until \<open>Flush\<close>.
\<close>

type_synonym row = "string list"

record filesystem =
  files :: "string \<Rightarrow> row list option"
  unwritable :: "string \<Rightarrow> bool"

record CSVWriter =
  filename :: string
  pending :: "row list"

type_synonym FailedUsersCSVWriter = CSVWriter

definition Write :: "row \<Rightarrow> CSVWriter \<Rightarrow> CSVWriter" where
  "Write record w = w\<lparr>pending := pending w @ [record]\<rparr>"

definition Flush :: "CSVWriter \<Rightarrow> filesystem \<Rightarrow> CSVWriter \<times> filesystem" where
  "Flush w fs =
     (w\<lparr>pending := []\<rparr>,
      fs\<lparr>files := (files fs)(filename w \<mapsto>
               (case files fs (filename w) of None \<Rightarrow> [] | Some rows \<Rightarrow> rows) @ pending w)\<rparr>)"

definition ledger_header :: row where
  "ledger_header = [''TenantID'', ''Username'', ''Error'', ''Timestamp'']"

text \<open>\<open>os.Stat\<close> succeeds on an existing file; then \<open>os.Remove\<close>, then \<open>os.Create\<close>.\<close>

definition remove_and_create :: "string \<Rightarrow> string \<Rightarrow> string \<Rightarrow> filesystem \<Rightarrow> go_error + filesystem" where
  "remove_and_create path removeMsg createMsg fs =
     (if files fs path \<noteq> None \<and> unwritable fs path then Inl (Err removeMsg)
      else if unwritable fs path then Inl (Err createMsg)
      else Inr (fs\<lparr>files := (files fs)(path \<mapsto> [])\<rparr>))"

definition NewCSVWriter :: "string \<Rightarrow> filesystem \<Rightarrow> (go_error + CSVWriter) \<times> filesystem" where
  "NewCSVWriter filename' fs =
     (case remove_and_create filename' ''failed to remove existing CSV file''
             ''failed to create CSV file'' fs of
        Inl e \<Rightarrow> (Inl e, fs)
      | Inr fs1 \<Rightarrow>
          (Inr (Write [''scim_id''] \<lparr>filename = filename', pending = []\<rparr>), fs1))"

definition NewFailedUsersCSVWriter ::
  "string \<Rightarrow> filesystem \<Rightarrow> (go_error + FailedUsersCSVWriter) \<times> filesystem" where
  "NewFailedUsersCSVWriter filename' fs =
     (case remove_and_create filename' ''failed to remove existing failed users CSV file''
             ''failed to create failed users CSV file'' fs of
        Inl e \<Rightarrow> (Inl e, fs)
      | Inr fs1 \<Rightarrow>
          (let (w, fs2) = Flush (Write ledger_header \<lparr>filename = filename', pending = []\<rparr>) fs1
           in (Inr w, fs2)))"

text \<open>
  \<open>NewFailedUsersCSVWriterAppend\<close>: open for appending, creating the file if it does not
  exist; write the header if the file is empty.
\<close>

definition NewFailedUsersCSVWriterAppend ::
  "string \<Rightarrow> filesystem \<Rightarrow> (go_error + FailedUsersCSVWriter) \<times> filesystem" where
  "NewFailedUsersCSVWriterAppend filename' fs =
     (if unwritable fs filename'
      then (Inl (Err ''failed to open/create failed users CSV file''), fs)
      else
        (let fs1 = (case files fs filename' of
                      None \<Rightarrow> fs\<lparr>files := (files fs)(filename' \<mapsto> [])\<rparr>
                    | Some rows \<Rightarrow> fs);
             w = \<lparr>filename = filename', pending = []\<rparr>
         in if files fs1 filename' = Some []
            then (let (w', fs2) = Flush (Write ledger_header w) fs1 in (Inr w', fs2))
            else (Inr w, fs1)))"




definition Close :: "CSVWriter \<Rightarrow> filesystem \<Rightarrow> filesystem" where
  "Close w fs = snd (Flush w fs)"


section \<open>Reading the ledger (readFailedUsersFromCSV)\<close>

text \<open>
  \<open>csv.Reader.ReadAll\<close> with the default settings: every record must have as many
  fields as the first one.
\<close>

definition ReadAll :: "row list \<Rightarrow> go_error + row list" where
  "ReadAll rows =
     (case rows of
        [] \<Rightarrow> Inr []
      | r # rs \<Rightarrow> if list_all (\<lambda>x. length x = length r) rs then Inr rows
                  else Inl (Err ''record on line: wrong number of fields''))"

text \<open>The loop over the records from \<open>startRow\<close> on.\<close>

fun failedUsersLoop :: "row list \<Rightarrow> FailedUser list" where
  "failedUsersLoop [] = []"
| "failedUsersLoop (record # records) =
     (if length record < 4 then failedUsersLoop records
      else (case Atoi (record ! 0) of
              None \<Rightarrow> failedUsersLoop records
            | Some tenantID \<Rightarrow>
                \<lparr>TenantID = tenantID, Username = record ! 1, Error = record ! 2,
                  Timestamp = record ! 3\<rparr> # failedUsersLoop records))"

definition readFailedUsersFromCSV :: "Config \<Rightarrow> filesystem \<Rightarrow> go_error + FailedUser list" where
  "readFailedUsersFromCSV config fs =
     (case files fs (FailedUsersCsvPath (Execution config)) of
        None \<Rightarrow> Inl (Err ''failed to open failed users CSV file'')
      | Some rows \<Rightarrow>
          (case ReadAll rows of
             Inl e \<Rightarrow> Inl (Err ''failed to read CSV file'')
           | Inr records \<Rightarrow>
               (case records of
                  [] \<Rightarrow> Inr (failedUsersLoop [])
                | first # others \<Rightarrow>
                    (case first of
                       [] \<Rightarrow> Inl (Panic ''index out of range [0] with length 0'')
                     | f # rest \<Rightarrow>
                         if f = ''TenantID'' \<or> f = ''Tenant ID''
                         then Inr (failedUsersLoop others)
                         else Inr (failedUsersLoop records)))))"

section \<open>The executor (TestExecutor)\<close>

record TestExecutor =
  config :: Config
  csvWriter :: "CSVWriter option"
  failedUsersWriter :: "FailedUsersCSVWriter option"
  stats :: TestStats

definition NewTestExecutor ::
  "Config \<Rightarrow> bool \<Rightarrow> filesystem \<Rightarrow> (go_error + TestExecutor) \<times> filesystem" where
  "NewTestExecutor config' retryMode fs =
     (case NewCSVWriter (ScimIdCsvPath (Execution config')) fs of
        (Inl e, fs1) \<Rightarrow> (Inl (Err ''failed to create CSV writer''), fs1)
      | (Inr csvWriter', fs1) \<Rightarrow>
          if \<not> retryMode then
            (case NewFailedUsersCSVWriter (FailedUsersCsvPath (Execution config')) fs1 of
               (Inl e, fs2) \<Rightarrow>
                 (Inl (Err ''failed to create failed users CSV writer''), Close csvWriter' fs2)
             | (Inr failedUsersWriter', fs2) \<Rightarrow>
                 (Inr \<lparr>config = config', csvWriter = Some csvWriter',
                        failedUsersWriter = Some failedUsersWriter', stats = NewTestStats\<rparr>,
                  fs2))
          else
            (Inr \<lparr>config = config', csvWriter = Some csvWriter', failedUsersWriter = None,
                   stats = NewTestStats\<rparr>,
             fs1))"

text \<open>\<open>TestExecutor.Close\<close>: close both writers, if present.\<close>

definition CloseExecutor :: "TestExecutor \<Rightarrow> filesystem \<Rightarrow> filesystem" where
  "CloseExecutor te fs =
     (let fs1 = (case csvWriter te of None \<Rightarrow> fs | Some w \<Rightarrow> Close w fs)
      in case failedUsersWriter te of None \<Rightarrow> fs1 | Some w \<Rightarrow> Close w fs1)"

text \<open>
  \<open>ExecuteRetryFailed\<close>. The result says whether the function returned early for want of
  failed users or went on to launch retry workers, which it then lists with their launch
  times; the file system returned is the one the launcher leaves before any worker has
  written to the ledger.
\<close>

datatype 'c retry_outcome =
    NoFailedUsers
  | Retried "(int \<times> 'c RetryWorkerTask) list"

definition ExecuteRetryFailed ::
  "'c \<Rightarrow> TestExecutor \<Rightarrow> filesystem
   \<Rightarrow> (go_error + 'c retry_outcome) \<times> TestExecutor \<times> filesystem" where
  "ExecuteRetryFailed newClient te fs =
     (case NewFailedUsersCSVWriterAppend (FailedUsersCsvPath (Execution (config te))) fs of
        (Inl e, fs1) \<Rightarrow> (Inl (Err ''failed to create failed users CSV writer''), te, fs1)
      | (Inr fw, fs1) \<Rightarrow>
          (let te1 = te\<lparr>failedUsersWriter := Some fw\<rparr>
           in case readFailedUsersFromCSV (config te1) fs1 of
                Inl (Panic m) \<Rightarrow> (Inl (Panic m), te1, Close fw fs1)
              | Inl (Err m) \<Rightarrow> (Inl (Err ''failed to read failed users''), te1, Close fw fs1)
              | Inr failedUsers \<Rightarrow>
                  if length failedUsers = 0 then (Inr NoFailedUsers, te1, Close fw fs1)
                  else
                    (case retryTasks newClient (config te1) failedUsers of
                       Inl e \<Rightarrow> (Inl e, te1, Close fw fs1)
                     | Inr retryTasks' \<Rightarrow>
                         (case rampUpDelay (config te1) of
                            Inl e \<Rightarrow> (Inl e, te1, Close fw fs1)
                          | Inr delay \<Rightarrow>
                              (Inr (Retried (launchLoop delay 0 retryTasks')), te1,
                               Close fw fs1)))))"

section \<open>The report (PrintStats)\<close>




section \<open>Example inputs\<close>

text \<open>A disk left by an earlier run: some scim IDs and two failed users in the ledger.\<close>

definition example_fs :: filesystem where
  "example_fs =
     \<lparr>files = (\<lambda>p. None)(''scimIDs.csv'' \<mapsto> [[''scim_id''], [''old-id'']],
                          ''failedUsers.csv'' \<mapsto>
                             [ledger_header, [''3'', ''isTestUser_5'', ''status 500'', ''t1''],
                              [''7'', ''a_9'', ''status 409'', ''t2'']]),
      unwritable = (\<lambda>p. False)\<rparr>"

text \<open>
  The executor as constructed in retry mode with the default configuration, and a disk
  where the ledger file exists but is empty.
\<close>

definition retry_executor :: TestExecutor where
  "retry_executor =
     \<lparr>config = DefaultConfig,
      csvWriter = Some \<lparr>filename = ''scimIDs.csv'', pending = [[''scim_id'']]\<rparr>,
      failedUsersWriter = None, stats = NewTestStats\<rparr>"


text \<open>A remote side that refuses every user of an even-numbered tenant.\<close>

definition example_env :: "unit env" where
  "example_env =
     \<lparr>CreateUserWithName =
        (\<lambda>c tenantIndex username.
           (if even tenantIndex then Inl ''user creation failed with status 500: ''
            else Inr \<lparr>ID = ''id-'' @ username, UserName = username\<rparr>, c)),
      Now = (\<lambda>c. ''2025-01-01 00:00:00'')\<rparr>"

section \<open>Verification\<close>

subsection \<open>Statistics invariant\<close>

lemma IncrementRole_eq:
  "IncrementRole b ts =
     ts\<lparr>TotalRoles := TotalRoles ts + 1,
        SuccessRoles := SuccessRoles ts + b2i b,
        FailedRoles := FailedRoles ts + b2i (\<not> b)\<rparr>"
  by (simp add: IncrementRole_def b2i_def Let_def)

lemma IncrementUser_eq:
  "IncrementUser b ts =
     ts\<lparr>TotalUsers := TotalUsers ts + 1,
        SuccessUsers := SuccessUsers ts + b2i b,
        FailedUsers := FailedUsers ts + b2i (\<not> b)\<rparr>"
  by (simp add: IncrementUser_def b2i_def Let_def)

lemma observe_balanced: "stats_balanced ts \<Longrightarrow> stats_balanced (observe c ts)"
  by (cases c) (auto simp: stats_balanced_def IncrementRole_eq IncrementUser_eq b2i_def)

lemma fold_observe_balanced:
  "stats_balanced ts \<Longrightarrow> stats_balanced (fold observe calls ts)"
  by (induction calls arbitrary: ts) (simp_all add: observe_balanced)

text \<open>
  Claim C3. Starting from the fresh stats object, after any sequence of
  \<open>IncrementRole\<close>/\<open>IncrementUser\<close> calls the total of each category equals
  success plus failed; and one increment adds exactly 1 to the total and exactly 1 to
  success (flag true) or to failed (flag false), leaving the other category alone.
\<close>

theorem stats_total_is_success_plus_failed:
  "TotalRoles (observe_all calls NewTestStats)
     = SuccessRoles (observe_all calls NewTestStats) + FailedRoles (observe_all calls NewTestStats)
   \<and> TotalUsers (observe_all calls NewTestStats)
     = SuccessUsers (observe_all calls NewTestStats) + FailedUsers (observe_all calls NewTestStats)
   \<and> IncrementRole b ts =
       ts\<lparr>TotalRoles := TotalRoles ts + 1,
          SuccessRoles := SuccessRoles ts + b2i b,
          FailedRoles := FailedRoles ts + b2i (\<not> b)\<rparr>
   \<and> IncrementUser b ts =
       ts\<lparr>TotalUsers := TotalUsers ts + 1,
          SuccessUsers := SuccessUsers ts + b2i b,
          FailedUsers := FailedUsers ts + b2i (\<not> b)\<rparr>"
proof -
  have "stats_balanced NewTestStats"
    by (simp add: stats_balanced_def NewTestStats_def)
  then have "stats_balanced (observe_all calls NewTestStats)"
    unfolding observe_all_def by (rule fold_observe_balanced)
  then show ?thesis
    by (simp add: stats_balanced_def IncrementRole_eq IncrementUser_eq)
qed

subsection \<open>Partition coverage\<close>

lemma go_quot_nonneg: "0 \<le> a \<Longrightarrow> 0 < b \<Longrightarrow> go_quot a b = a div b"
  by (simp add: go_quot_def)

lemma go_div_pos: "0 \<le> a \<Longrightarrow> 0 < b \<Longrightarrow> go_div a b = Inr (a div b)"
  by (simp add: go_div_def go_quot_nonneg)

lemma go_mod_pos: "0 \<le> a \<Longrightarrow> 0 < b \<Longrightarrow> go_mod a b = Inr (a mod b)"
  by (simp add: go_mod_def go_quot_nonneg minus_mult_div_eq_mod)

lemma task_range_mk [simp]:
  "task_range \<lparr>WorkerTask.UserStart = a, UserEnd = b, ThreadID = t, Client = c\<rparr> = (a, b)"
  by (simp add: task_range_def)

lemma retry_range_mk [simp]:
  "retry_range \<lparr>RetryWorkerTask.ThreadID = t, UserStart = a, UserEnd = b, FailedUsers = fu,
     Client = c\<rparr> = (a, b)"
  by (simp add: retry_range_def)





lemma retryTasksLoop_props:
  "0 \<le> per \<Longrightarrow> 0 \<le> threadID \<Longrightarrow> threadID \<le> threads \<Longrightarrow>
   contiguous_from start (map retry_range (retryTasksLoop c fu threads per rem threadID start)) \<and>
   (\<forall>r\<in>set (map retry_range (retryTasksLoop c fu threads per rem threadID start)). 0 < range_size r) \<and>
   sum_list (map range_size (map retry_range (retryTasksLoop c fu threads per rem threadID start)))
     = (threads - threadID) * per + max 0 (min rem threads - threadID)"
proof (induction c fu threads per rem threadID start rule: retryTasksLoop.induct)
  case (1 c fu threads per rem threadID start)
  show ?case
  proof (cases "threadID < threads")
    case False
    then have "retryTasksLoop c fu threads per rem threadID start = []"
      by (subst retryTasksLoop.simps) simp
    with "1.prems" False show ?thesis by simp
  next
    case True
    let ?tu = "if threadID < rem then per + 1 else per"
    show ?thesis
    proof (cases "?tu > 0")
      case pos: True
      let ?end = "start + ?tu - 1"
      have IH: "contiguous_from (?end + 1) (map retry_range (retryTasksLoop c fu threads per rem (threadID + 1) (?end + 1))) \<and>
        (\<forall>r\<in>set (map retry_range (retryTasksLoop c fu threads per rem (threadID + 1) (?end + 1))). 0 < range_size r) \<and>
        sum_list (map range_size (map retry_range (retryTasksLoop c fu threads per rem (threadID + 1) (?end + 1))))
          = (threads - (threadID + 1)) * per + max 0 (min rem threads - (threadID + 1))"
        using "1.IH"(1)[OF True refl pos refl] "1.prems" True by simp
      have unf: "retryTasksLoop c fu threads per rem threadID start =
         \<lparr>RetryWorkerTask.ThreadID = threadID, UserStart = start, UserEnd = ?end,
           FailedUsers = fu, Client = c\<rparr>
         # retryTasksLoop c fu threads per rem (threadID + 1) (?end + 1)"
        using True pos by (subst retryTasksLoop.simps) (simp add: Let_def)
      define K where "K = (threads - (threadID + 1)) * per"
      have K: "(threads - threadID) * per = K + per"
        by (simp add: K_def algebra_simps)
      have hd_size: "range_size (start, ?end) = ?tu"
        by (simp add: range_size_def)
      have arith: "?tu + (K + max 0 (min rem threads - (threadID + 1)))
                   = K + per + max 0 (min rem threads - threadID)"
        using "1.prems" True by (simp add: min_def max_def)
      show ?thesis
        unfolding unf using IH hd_size arith pos
        by (simp add: K K_def[symmetric])
    next
      case zero: False
      have IH: "contiguous_from start (map retry_range (retryTasksLoop c fu threads per rem (threadID + 1) start)) \<and>
        (\<forall>r\<in>set (map retry_range (retryTasksLoop c fu threads per rem (threadID + 1) start)). 0 < range_size r) \<and>
        sum_list (map range_size (map retry_range (retryTasksLoop c fu threads per rem (threadID + 1) start)))
          = (threads - (threadID + 1)) * per + max 0 (min rem threads - (threadID + 1))"
        using "1.IH"(2)[OF True refl zero] "1.prems" True by simp
      have unf: "retryTasksLoop c fu threads per rem threadID start =
         retryTasksLoop c fu threads per rem (threadID + 1) start"
        using True zero by (subst retryTasksLoop.simps) (simp add: Let_def)
      have z: "per = 0" "\<not> threadID < rem" using zero "1.prems" by (auto split: if_splits)
      have arith: "max 0 (min rem threads - (threadID + 1)) = max 0 (min rem threads - threadID)"
        using z by (simp add: min_def max_def)
      show ?thesis
        unfolding unf using IH z(1) arith by simp
    qed
  qed
qed


lemma div_mod_recompose_max:
  assumes "0 < (n::int)"
  shows "n * (t div n) + max 0 (min (t mod n) n) = t"
proof -
  have "t mod n < n" "0 \<le> t mod n" using assms by simp_all
  then have "max 0 (min (t mod n) n) = t mod n" by simp
  then show ?thesis by simp
qed



subsection \<open>Workers for empty ranges\<close>

text \<open>
  Claim C5. A worker is to be started only for a range that holds at least one index.
  The user-creation phase does not do so: with 1 user and 3 threads it builds three
  tasks and starts a worker for each, two of them with the empty range 2..1. The
  role-creation and retry phases skip such ranges.
\<close>

theorem user_creation_launches_empty_ranges:
  "ExecuteUserCreation () (with_flags 3 1 5 10 DefaultConfig) =
     Inr [(0, \<lparr>WorkerTask.UserStart = 1, UserEnd = 1, ThreadID = 0, Client = ()\<rparr>),
          (3333333333, \<lparr>WorkerTask.UserStart = 2, UserEnd = 1, ThreadID = 1, Client = ()\<rparr>),
          (6666666666, \<lparr>WorkerTask.UserStart = 2, UserEnd = 1, ThreadID = 2, Client = ()\<rparr>)]"
  by (simp add: ExecuteUserCreation_def userCreationTasks_def rampUpDelay_def with_flags_def
      DefaultConfig_def go_div_def go_mod_def go_quot_def userTasksLoop.simps Let_def)

lemma role_creation_skips_empty_ranges_example:
  "ExecuteRoleCreation () (with_flags 3 10 1 10 DefaultConfig) =
     Inr [\<lparr>roleThreadID = 0, roleTenantStart = 1, roleTenantEnd = 1, roleClient = ()\<rparr>]"
  by (simp add: ExecuteRoleCreation_def with_flags_def
      DefaultConfig_def go_div_def go_mod_def go_quot_def roleCreationLoop.simps Let_def)

lemma roleCreationLoop_nonempty:
  "\<forall>a\<in>set (roleCreationLoop c threads per rem threadID start). 0 < range_size (role_range a)"
proof (induction c threads per rem threadID start rule: roleCreationLoop.induct)
  case (1 c threads per rem threadID start)
  show ?case
  proof (cases "threadID < threads")
    case False
    then show ?thesis by (subst roleCreationLoop.simps) simp
  next
    case True
    from "1.IH"[OF True refl refl] True show ?thesis
      by (subst roleCreationLoop.simps) (auto simp: Let_def role_range_def range_size_def)
  qed
qed

lemma retryTasksLoop_nonempty:
  "\<forall>t\<in>set (retryTasksLoop c fu threads per rem threadID start). 0 < range_size (retry_range t)"
proof (induction c fu threads per rem threadID start rule: retryTasksLoop.induct)
  case (1 c fu threads per rem threadID start)
  show ?case
  proof (cases "threadID < threads")
    case False
    then show ?thesis by (subst retryTasksLoop.simps) simp
  next
    case True
    let ?tu = "if threadID < rem then per + 1 else per"
    show ?thesis
    proof (cases "?tu > 0")
      case pos: True
      from "1.IH"(1)[OF True refl pos refl] True pos show ?thesis
        by (subst retryTasksLoop.simps) (auto simp: Let_def range_size_def)
    next
      case zero: False
      from "1.IH"(2)[OF True refl zero] True zero show ?thesis
        by (subst retryTasksLoop.simps) (auto simp: Let_def)
    qed
  qed
qed

subsection \<open>The report\<close>




subsection \<open>Constructing the executor in retry mode\<close>

lemma NewCSVWriter_other_path:
  "q \<noteq> p \<Longrightarrow> files (snd (NewCSVWriter p fs)) q = files fs q"
  by (simp add: NewCSVWriter_def remove_and_create_def split: sum.splits)

lemma NewCSVWriter_writable:
  "\<not> unwritable fs p \<Longrightarrow>
   NewCSVWriter p fs =
     (Inr \<lparr>filename = p, pending = [[''scim_id'']]\<rparr>, fs\<lparr>files := (files fs)(p \<mapsto> [])\<rparr>)"
  by (simp add: NewCSVWriter_def remove_and_create_def Write_def)

text \<open>
  Claim C10. Constructing the executor in retry mode leaves the failed-users ledger file
  as it was (the two paths being different files), whether or not the construction
  succeeds, and hands out no ledger writer. The scim-ID file, if it can be written, is
  removed and created anew: it is empty after the construction, its writer holds the
  header row \<open>scim_id\<close>, and closing the executor leaves exactly that header in it.
\<close>

theorem retry_mode_keeps_ledger_recreates_scim_csv:
  assumes "ScimIdCsvPath (Execution cfg) \<noteq> FailedUsersCsvPath (Execution cfg)"
  shows "files (snd (NewTestExecutor cfg True fs)) (FailedUsersCsvPath (Execution cfg))
           = files fs (FailedUsersCsvPath (Execution cfg))
       \<and> (\<not> unwritable fs (ScimIdCsvPath (Execution cfg)) \<longrightarrow>
           (\<exists>te. fst (NewTestExecutor cfg True fs) = Inr te
              \<and> failedUsersWriter te = None
              \<and> csvWriter te
                  = Some \<lparr>filename = ScimIdCsvPath (Execution cfg), pending = [[''scim_id'']]\<rparr>
              \<and> files (snd (NewTestExecutor cfg True fs)) (ScimIdCsvPath (Execution cfg)) = Some []
              \<and> files (CloseExecutor te (snd (NewTestExecutor cfg True fs)))
                   (ScimIdCsvPath (Execution cfg)) = Some [[''scim_id'']]
              \<and> files (CloseExecutor te (snd (NewTestExecutor cfg True fs)))
                   (FailedUsersCsvPath (Execution cfg))
                  = files fs (FailedUsersCsvPath (Execution cfg))))"
proof -
  let ?s = "ScimIdCsvPath (Execution cfg)"
  let ?l = "FailedUsersCsvPath (Execution cfg)"
  have ne: "?l \<noteq> ?s" using assms by simp
  have snd_eq: "snd (NewTestExecutor cfg True fs) = snd (NewCSVWriter ?s fs)"
    by (simp add: NewTestExecutor_def split: prod.splits sum.splits)
  have keep: "files (snd (NewTestExecutor cfg True fs)) ?l = files fs ?l"
    unfolding snd_eq using ne by (rule NewCSVWriter_other_path)
  have ok: "\<not> unwritable fs ?s \<Longrightarrow>
     NewTestExecutor cfg True fs =
       (Inr \<lparr>config = cfg, csvWriter = Some \<lparr>filename = ?s, pending = [[''scim_id'']]\<rparr>,
              failedUsersWriter = None, stats = NewTestStats\<rparr>,
        fs\<lparr>files := (files fs)(?s \<mapsto> [])\<rparr>)"
    by (simp add: NewTestExecutor_def NewCSVWriter_writable)
  show ?thesis
    using keep ne by (auto simp: ok CloseExecutor_def Close_def Flush_def)
qed

theorem retry_mode_keeps_ledger_recreates_scim_csv_witness:
  "ScimIdCsvPath (Execution DefaultConfig) \<noteq> FailedUsersCsvPath (Execution DefaultConfig)
   \<and> files (snd (NewTestExecutor DefaultConfig True example_fs)) ''failedUsers.csv''
       = Some [ledger_header, [''3'', ''isTestUser_5'', ''status 500'', ''t1''],
               [''7'', ''a_9'', ''status 409'', ''t2'']]
   \<and> \<not> unwritable example_fs ''scimIDs.csv''
   \<and> (\<exists>te. fst (NewTestExecutor DefaultConfig True example_fs) = Inr te
          \<and> failedUsersWriter te = None
          \<and> files (snd (NewTestExecutor DefaultConfig True example_fs)) ''scimIDs.csv'' = Some []
          \<and> files (CloseExecutor te (snd (NewTestExecutor DefaultConfig True example_fs)))
               ''scimIDs.csv'' = Some [[''scim_id'']])"
proof -
  have ne: "ScimIdCsvPath (Execution DefaultConfig) \<noteq> FailedUsersCsvPath (Execution DefaultConfig)"
    by (simp add: DefaultConfig_def)
  have paths: "ScimIdCsvPath (Execution DefaultConfig) = ''scimIDs.csv''"
      "FailedUsersCsvPath (Execution DefaultConfig) = ''failedUsers.csv''"
    by (simp_all add: DefaultConfig_def)
  have w: "\<not> unwritable example_fs ''scimIDs.csv''"
    by (simp add: example_fs_def)
  have l: "files example_fs ''failedUsers.csv''
       = Some [ledger_header, [''3'', ''isTestUser_5'', ''status 500'', ''t1''],
               [''7'', ''a_9'', ''status 409'', ''t2'']]"
    by (simp add: example_fs_def)
  from retry_mode_keeps_ledger_recreates_scim_csv [OF ne, of example_fs] w l
  show ?thesis unfolding paths using ne paths by auto
qed

subsection \<open>Retry with an empty ledger\<close>










subsection \<open>Ramp-up\<close>

lemma length_launchLoop [simp]: "length (launchLoop d c ts) = length ts"
  by (induction ts arbitrary: c) simp_all


lemma map_snd_launchLoop [simp]: "map snd (launchLoop d c ts) = ts"
  by (induction ts arbitrary: c) simp_all



lemma ExecuteRetryFailed_Retried:
  assumes "fst (ExecuteRetryFailed newClient te fs) = Inr (Retried launches)"
  shows "\<exists>fw fs1 failedUsers tasks delay.
           NewFailedUsersCSVWriterAppend (FailedUsersCsvPath (Execution (config te))) fs = (Inr fw, fs1)
         \<and> readFailedUsersFromCSV (config te) fs1 = Inr failedUsers
         \<and> failedUsers \<noteq> []
         \<and> retryTasks newClient (config te) failedUsers = Inr tasks
         \<and> rampUpDelay (config te) = Inr delay
         \<and> launches = launchLoop delay 0 tasks"
  using assms
  by (auto simp: ExecuteRetryFailed_def Let_def
      split: prod.splits sum.splits go_error.splits if_splits)




subsection \<open>Outcome count of the user-creation pool\<close>




lemma results_sent_append [simp]: "results_sent (a @ b) = results_sent a @ results_sent b"
  by (induction a rule: results_sent.induct) simp_all

lemma result_pairs_append [simp]: "result_pairs (a @ b) = result_pairs a @ result_pairs b"
  by (simp add: result_pairs_def)

lemma result_pairs_Nil [simp]: "result_pairs [] = []"
  by (simp add: result_pairs_def)














subsection \<open>Retry replays the stored identity\<close>

lemma remote_calls_append [simp]: "remote_calls (a @ b) = remote_calls a @ remote_calls b"
  by (induction a rule: remote_calls.induct) simp_all

lemma for_each_calls:
  assumes "\<And>i c. remote_calls (fst (body i c)) = g i"
  shows "remote_calls (fst (for_each body xs c)) = concat (map g xs)"
proof (induction xs arbitrary: c)
  case Nil
  then show ?case by simp
next
  case (Cons x xs)
  show ?case
    using assms[of x c] Cons.IH[of "snd (body x c)"]
    by (simp add: case_prod_beta)
qed

lemma retryStep_calls:
  "remote_calls (fst (retryStep env tid user c)) = [(TenantID user, Username user)]"
  by (simp add: retryStep_def Let_def case_prod_beta split: sum.splits)

lemma retry_worker_calls:
  assumes "go_slice (RetryWorkerTask.FailedUsers task) (RetryWorkerTask.UserStart task)
             (RetryWorkerTask.UserEnd task + 1) = Inr us"
  shows "\<exists>evs. retryUsersWorkerScalable env task = Inr evs
           \<and> remote_calls evs = map (\<lambda>u. (TenantID u, Username u)) us"
  using for_each_calls[of "retryStep env (RetryWorkerTask.ThreadID task)"
      "\<lambda>u. [(TenantID u, Username u)]" us "RetryWorkerTask.Client task"]
  by (simp add: retryUsersWorkerScalable_def assms retryStep_calls)

lemma retryTasksLoop_FailedUsers:
  "\<forall>t\<in>set (retryTasksLoop c fu threads per rem threadID start). RetryWorkerTask.FailedUsers t = fu"
proof (induction c fu threads per rem threadID start rule: retryTasksLoop.induct)
  case (1 c fu threads per rem threadID start)
  show ?case
  proof (cases "threadID < threads")
    case False
    then show ?thesis by (subst retryTasksLoop.simps) simp
  next
    case True
    let ?tu = "if threadID < rem then per + 1 else per"
    show ?thesis
    proof (cases "?tu > 0")
      case pos: True
      from "1.IH"(1)[OF True refl pos refl] True pos show ?thesis
        by (subst retryTasksLoop.simps) (auto simp: Let_def)
    next
      case zero: False
      from "1.IH"(2)[OF True refl zero] True zero show ?thesis
        by (subst retryTasksLoop.simps) (auto simp: Let_def)
    qed
  qed
qed

lemma contiguous_slices:
  "contiguous_from s rs \<Longrightarrow> \<forall>r\<in>set rs. 0 \<le> range_size r \<Longrightarrow> 0 \<le> s \<Longrightarrow>
   s + sum_list (map range_size rs) \<le> int (length xs) \<Longrightarrow>
   \<exists>yss. map (\<lambda>r. go_slice xs (fst r) (snd r + 1)) rs = map Inr yss
         \<and> concat yss = take (nat (sum_list (map range_size rs))) (drop (nat s) xs)"
proof (induction rs arbitrary: s)
  case Nil
  then show ?case by simp
next
  case (Cons r rs)
  define a where "a = range_size r"
  define T where "T = sum_list (map range_size rs)"
  have nn: "0 \<le> T"
    unfolding T_def using Cons.prems(2) by (intro sum_list_nonneg) auto
  have r: "fst r = s" "snd r + 1 = s + a" "0 \<le> a"
    using Cons.prems unfolding a_def by (simp_all add: range_size_def)
  have bound: "s + a + T \<le> int (length xs)"
    using Cons.prems(4) unfolding a_def T_def by simp
  have hd: "go_slice xs (fst r) (snd r + 1) = Inr (take (nat a) (drop (nat s) xs))"
    unfolding r using r(3) nn bound Cons.prems(3) by (simp add: go_slice_def)
  from Cons.IH[of "s + a"] Cons.prems r nn bound
  obtain yss where y: "map (\<lambda>r. go_slice xs (fst r) (snd r + 1)) rs = map Inr yss"
    "concat yss = take (nat T) (drop (nat (s + a)) xs)"
    unfolding T_def by auto
  have "drop (nat (s + a)) xs = drop (nat a) (drop (nat s) xs)"
    using r(3) Cons.prems(3) by (simp add: nat_add_distrib add.commute)
  then have "take (nat a) (drop (nat s) xs) @ take (nat T) (drop (nat (s + a)) xs)
      = take (nat a + nat T) (drop (nat s) xs)"
    by (simp add: take_add)
  also have "nat a + nat T = nat (a + T)"
    using r(3) nn by (simp add: nat_add_distrib)
  finally have cat: "take (nat a) (drop (nat s) xs) @ concat yss
      = take (nat (sum_list (map range_size (r # rs)))) (drop (nat s) xs)"
    using y(2) unfolding a_def T_def by simp
  have "map (\<lambda>r. go_slice xs (fst r) (snd r + 1)) (r # rs)
      = map Inr (take (nat a) (drop (nat s) xs) # yss)"
    using hd y(1) by simp
  with cat show ?case
    by (intro exI[of _ "take (nat a) (drop (nat s) xs) # yss"]) simp
qed

lemma retry_tasks_calls:
  assumes n: "1 \<le> NoOfThreads (Execution cfg)"
  shows "\<exists>tasks traces. retryTasks newClient cfg failedUsers = Inr tasks
       \<and> map (retryUsersWorkerScalable env) tasks = map Inr traces
       \<and> concat (map remote_calls traces) = map (\<lambda>u. (TenantID u, Username u)) failedUsers"
proof -
  let ?n = "NoOfThreads (Execution cfg)"
  let ?f = "int (length failedUsers)"
  have n0: "0 < ?n" using n by simp
  let ?rt = "retryTasksLoop newClient failedUsers ?n (?f div ?n) (?f mod ?n) 0 0"
  have rt: "retryTasks newClient cfg failedUsers = Inr ?rt"
    using n0 by (simp add: retryTasks_def go_div_pos go_mod_pos)
  have rp: "contiguous_from 0 (map retry_range ?rt) \<and>
     (\<forall>r\<in>set (map retry_range ?rt). 0 < range_size r) \<and>
     sum_list (map range_size (map retry_range ?rt)) = (?n - 0) * (?f div ?n) + max 0 (min (?f mod ?n) ?n - 0)"
    using n0 by (intro retryTasksLoop_props) (simp_all add: pos_imp_zdiv_nonneg_iff)
  have rsum: "sum_list (map range_size (map retry_range ?rt)) = ?f"
    using rp div_mod_recompose_max[OF n0, of ?f] by simp
  have rnn: "\<forall>r\<in>set (map retry_range ?rt). 0 \<le> range_size r"
    using rp by force
  from contiguous_slices[of 0 "map retry_range ?rt" failedUsers] rp rnn rsum
  obtain yss where y: "map (\<lambda>r. go_slice failedUsers (fst r) (snd r + 1)) (map retry_range ?rt)
        = map Inr yss"
    and cat: "concat yss = failedUsers"
    by auto
  have len: "length yss = length ?rt"
    using arg_cong[OF y, of length] by simp
  have sl: "go_slice (RetryWorkerTask.FailedUsers (?rt ! i)) (RetryWorkerTask.UserStart (?rt ! i))
              (RetryWorkerTask.UserEnd (?rt ! i) + 1) = Inr (yss ! i)"
    if "i < length ?rt" for i
  proof -
    have "?rt ! i \<in> set ?rt" using that by simp
    then have fu: "RetryWorkerTask.FailedUsers (?rt ! i) = failedUsers"
      by (rule retryTasksLoop_FailedUsers[rule_format])
    from arg_cong[OF y, of "\<lambda>l. l ! i"] that len
    have "go_slice failedUsers (fst (retry_range (?rt ! i))) (snd (retry_range (?rt ! i)) + 1)
        = Inr (yss ! i)"
      by simp
    then show ?thesis by (simp add: fu retry_range_def)
  qed
  define traces where
    "traces = map (\<lambda>t. fst (for_each (retryStep env (RetryWorkerTask.ThreadID t))
                 (projr (go_slice (RetryWorkerTask.FailedUsers t) (RetryWorkerTask.UserStart t)
                           (RetryWorkerTask.UserEnd t + 1)))
                 (RetryWorkerTask.Client t))) ?rt"
  have tr: "map (retryUsersWorkerScalable env) ?rt = map Inr traces"
  proof (rule nth_equalityI)
    show "length (map (retryUsersWorkerScalable env) ?rt) = length (map Inr traces)"
      by (simp add: traces_def)
  next
    fix i assume "i < length (map (retryUsersWorkerScalable env) ?rt)"
    then have i: "i < length ?rt" by simp
    show "map (retryUsersWorkerScalable env) ?rt ! i = map Inr traces ! i"
      using i sl[OF i] by (simp add: traces_def retryUsersWorkerScalable_def)
  qed
  have calls: "map remote_calls traces = map (map (\<lambda>u. (TenantID u, Username u))) yss"
  proof (rule nth_equalityI)
    show "length (map remote_calls traces) = length (map (map (\<lambda>u. (TenantID u, Username u))) yss)"
      by (simp add: traces_def len)
  next
    fix i assume "i < length (map remote_calls traces)"
    then have i: "i < length ?rt" by (simp add: traces_def)
    from retry_worker_calls[OF sl[OF i], of env] sl[OF i]
    show "map remote_calls traces ! i = map (map (\<lambda>u. (TenantID u, Username u))) yss ! i"
      using i len by (simp add: traces_def retryUsersWorkerScalable_def)
  qed
  have "concat (map remote_calls traces) = map (\<lambda>u. (TenantID u, Username u)) (concat yss)"
    unfolding calls by (simp add: map_concat)
  then show ?thesis using rt tr cat by auto
qed

text \<open>
  Claim C6. When the retry entry point launches workers (at least one thread), each
  worker's slice of the failed users is in range, and the remote calls the workers make,
  taken in worker order, are exactly the records read from the ledger, one call per
  record, each with the record's tenant and the record's username string as read:
  no username is derived from an index.
\<close>

theorem retry_calls_use_stored_username:
  assumes "1 \<le> NoOfThreads (Execution (config te))"
    and "fst (ExecuteRetryFailed newClient te fs) = Inr (Retried launches)"
  shows "\<exists>failedUsers traces.
           readFailedUsersFromCSV (config te)
             (snd (NewFailedUsersCSVWriterAppend (FailedUsersCsvPath (Execution (config te))) fs))
             = Inr failedUsers
         \<and> map (\<lambda>l. retryUsersWorkerScalable env (snd l)) launches = map Inr traces
         \<and> concat (map remote_calls traces) = map (\<lambda>u. (TenantID u, Username u)) failedUsers"
proof -
  from ExecuteRetryFailed_Retried[OF assms(2)]
  obtain fw fs1 failedUsers tasks delay where
    o: "NewFailedUsersCSVWriterAppend (FailedUsersCsvPath (Execution (config te))) fs = (Inr fw, fs1)"
    and r: "readFailedUsersFromCSV (config te) fs1 = Inr failedUsers"
    and t: "retryTasks newClient (config te) failedUsers = Inr tasks"
    and l: "launches = launchLoop delay 0 tasks"
    by blast
  from retry_tasks_calls[OF assms(1), of newClient failedUsers env] t
  obtain traces where tr: "map (retryUsersWorkerScalable env) tasks = map Inr traces"
    and c: "concat (map remote_calls traces) = map (\<lambda>u. (TenantID u, Username u)) failedUsers"
    by auto
  have "map (\<lambda>l. retryUsersWorkerScalable env (snd l)) launches
      = map (retryUsersWorkerScalable env) (map snd launches)"
    by (simp add: comp_def)
  then have "map (\<lambda>l. retryUsersWorkerScalable env (snd l)) launches = map Inr traces"
    using tr l by simp
  with o r c show ?thesis by auto
qed

lemma Atoi_3: "Atoi ''3'' = Some 3" and Atoi_7: "Atoi ''7'' = Some 7"
  by (simp_all add: Atoi_def is_digit_def digits_val_def digit_val_def)

lemma read_example_fs:
  "readFailedUsersFromCSV DefaultConfig example_fs =
     Inr [\<lparr>TenantID = 3, Username = ''isTestUser_5'', Error = ''status 500'', Timestamp = ''t1''\<rparr>,
          \<lparr>TenantID = 7, Username = ''a_9'', Error = ''status 409'', Timestamp = ''t2''\<rparr>]"
  by (simp add: readFailedUsersFromCSV_def ReadAll_def example_fs_def DefaultConfig_def
      ledger_header_def Atoi_3 Atoi_7)

lemma open_example_fs:
  "NewFailedUsersCSVWriterAppend ''failedUsers.csv'' example_fs
     = (Inr \<lparr>filename = ''failedUsers.csv'', pending = []\<rparr>, example_fs)"
  by (simp add: NewFailedUsersCSVWriterAppend_def example_fs_def Let_def)

lemma retry_example_fs:
  "fst (ExecuteRetryFailed () retry_executor example_fs) =
     Inr (Retried [(0, \<lparr>RetryWorkerTask.ThreadID = 0, UserStart = 0, UserEnd = 1,
            FailedUsers =
              [\<lparr>TenantID = 3, Username = ''isTestUser_5'', Error = ''status 500'', Timestamp = ''t1''\<rparr>,
               \<lparr>TenantID = 7, Username = ''a_9'', Error = ''status 409'', Timestamp = ''t2''\<rparr>],
            Client = ()\<rparr>)])"
proof -
  have c: "config retry_executor = DefaultConfig" by (simp add: retry_executor_def)
  have p: "FailedUsersCsvPath (Execution DefaultConfig) = ''failedUsers.csv''"
      "NoOfThreads (Execution DefaultConfig) = 1" "RampUpPeriod (Execution DefaultConfig) = 10"
    by (simp_all add: DefaultConfig_def)
  show ?thesis
    by (simp add: ExecuteRetryFailed_def c p open_example_fs read_example_fs retryTasks_def
        go_div_def go_mod_def go_quot_def retryTasksLoop.simps rampUpDelay_def Let_def)
qed

theorem retry_calls_use_stored_username_witness:
  "1 \<le> NoOfThreads (Execution (config retry_executor))
   \<and> fst (ExecuteRetryFailed () retry_executor example_fs) =
       Inr (Retried [(0, \<lparr>RetryWorkerTask.ThreadID = 0, UserStart = 0, UserEnd = 1,
              FailedUsers =
                [\<lparr>TenantID = 3, Username = ''isTestUser_5'', Error = ''status 500'', Timestamp = ''t1''\<rparr>,
                 \<lparr>TenantID = 7, Username = ''a_9'', Error = ''status 409'', Timestamp = ''t2''\<rparr>],
              Client = ()\<rparr>)])
   \<and> (\<exists>traces.
         map (\<lambda>l. retryUsersWorkerScalable example_env (snd l))
           [(0, \<lparr>RetryWorkerTask.ThreadID = 0, UserStart = 0, UserEnd = 1,
              FailedUsers =
                [\<lparr>TenantID = 3, Username = ''isTestUser_5'', Error = ''status 500'', Timestamp = ''t1''\<rparr>,
                 \<lparr>TenantID = 7, Username = ''a_9'', Error = ''status 409'', Timestamp = ''t2''\<rparr>],
              Client = ()\<rparr>)] = map Inr traces
         \<and> concat (map remote_calls traces) = [(3, ''isTestUser_5''), (7, ''a_9'')])"
proof -
  have n: "1 \<le> NoOfThreads (Execution (config retry_executor))"
    by (simp add: retry_executor_def DefaultConfig_def)
  have c: "config retry_executor = DefaultConfig" by (simp add: retry_executor_def)
  have p: "FailedUsersCsvPath (Execution DefaultConfig) = ''failedUsers.csv''"
    by (simp add: DefaultConfig_def)
  from retry_calls_use_stored_username [OF n retry_example_fs, of example_env]
  show ?thesis
    using n retry_example_fs
    by (auto simp: c p open_example_fs read_example_fs)
qed

subsection \<open>Ledger round trip\<close>















end
